theory Spec2Isabelle
  imports Main "HOL-Library.Word"
begin

section \<open>Data model\<close>

text \<open>
  Every quantity of the library (\<open>TensorSize\<close>, \<open>TensorIndex\<close>, \<open>TensorOffset\<close>,
  \<open>TensorRank\<close> and the elements of shapes, strides and index vectors) is a C++
  \<open>size_t\<close>: an unsigned 64-bit integer whose \<open>+\<close>, \<open>-\<close> and \<open>*\<close> wrap around.
  A \<open>std::vector<size_t>\<close> is a list; its \<open>size()\<close> is below \<open>2 ^ 64\<close>.
\<close>

type_synonym size_t = "64 word"

text \<open>
  The two exceptions the library throws carry their message. Reading or writing a
  \<open>std::vector\<close> through \<open>operator[]\<close> outside its bounds and dividing by zero throw
  nothing in C++: they are undefined behaviour, which the model records as outcomes of
  their own.
\<close>

datatype error =
    invalid_argument string
  | out_of_range string
  | out_of_bounds_access
  | division_by_zero

section \<open>NextUtils: stride and size arithmetic\<close>

text \<open>
  \<open>ComputeStrides\<close>, runtime form: \<open>strides(N, 1)\<close>, then
  \<open>for (int i = N - 2; i >= 0; --i) strides[i] = strides[i + 1] * shape[i + 1]\<close>.
  The counter of \<open>ComputeStrides_loop\<close> is \<open>i + 1\<close>, the number of iterations left
  (a rank is far below \<open>2 ^ 31\<close>, where the source's cast to \<open>int\<close> is exact), so the
  loop started at \<open>N - 1\<close> runs for \<open>i = N - 2, ..., 0\<close>, and not at all for \<open>N \<le> 1\<close>.
  Every index it touches is at most \<open>N - 1\<close>.
\<close>

fun ComputeStrides_loop :: "size_t list \<Rightarrow> size_t list \<Rightarrow> nat \<Rightarrow> size_t list" where
  "ComputeStrides_loop shape strides 0 = strides"
| "ComputeStrides_loop shape strides (Suc i) =
     ComputeStrides_loop shape (strides[i := strides ! (i + 1) * shape ! (i + 1)]) i"

definition ComputeStrides :: "size_t list \<Rightarrow> size_t list" where
  "ComputeStrides shape =
     (let N = length shape in ComputeStrides_loop shape (replicate N 1) (N - 1))"


text \<open>\<open>ComputeSize\<close>: \<open>size = 1; for (dim : shape) size *= dim\<close>.\<close>

definition ComputeSize :: "size_t list \<Rightarrow> size_t" where
  "ComputeSize shape = fold (\<lambda>dim size. size * dim) shape 1"


section \<open>NextUtils: index mapping\<close>

text \<open>
  \<open>FlattenIndex\<close>, runtime form: \<open>for (i = 0; i < strides.size(); ++i)
  FlatIndex += indices[i] * strides[i]\<close>. The loop walks both vectors from the front;
  when \<open>indices\<close> is the shorter one, \<open>indices[i]\<close> is read out of bounds.
\<close>

fun FlattenIndex_loop :: "size_t list \<Rightarrow> size_t list \<Rightarrow> size_t \<Rightarrow> error + size_t" where
  "FlattenIndex_loop [] indices FlatIndex = Inr FlatIndex"
| "FlattenIndex_loop (s # strides) [] FlatIndex = Inl out_of_bounds_access"
| "FlattenIndex_loop (s # strides) (x # indices) FlatIndex =
     FlattenIndex_loop strides indices (FlatIndex + x * s)"

definition FlattenIndex :: "size_t list \<Rightarrow> size_t list \<Rightarrow> error + size_t" where
  "FlattenIndex strides indices = FlattenIndex_loop strides indices 0"

text \<open>
  \<open>UnflattenIndex\<close>, runtime form: for each stride in order,
  \<open>indices[i] = flatIndex / strides[i]; flatIndex %= strides[i]\<close>. A zero stride
  divides by zero.
\<close>

fun UnflattenIndex :: "size_t list \<Rightarrow> size_t \<Rightarrow> error + size_t list" where
  "UnflattenIndex [] flatIndex = Inr []"
| "UnflattenIndex (s # strides) flatIndex =
     (if s = 0 then Inl division_by_zero
      else case UnflattenIndex strides (flatIndex mod s) of
             Inl e \<Rightarrow> Inl e
           | Inr indices \<Rightarrow> Inr (flatIndex div s # indices))"

text \<open>
  \<open>NextReverse\<close>: \<open>left = 0; right = vec.size() - 1;
  while (left < right) { swap(vec[left], vec[right]); ++left; --right; }\<close>.
  \<open>left\<close> and \<open>right\<close> are \<open>size_t\<close>, so \<open>vec.size() - 1\<close> wraps to \<open>2 ^ 64 - 1\<close> on
  an empty vector.
\<close>

function NextReverse_loop :: "size_t list \<Rightarrow> size_t \<Rightarrow> size_t \<Rightarrow> error + size_t list" where
  "NextReverse_loop vec left right =
     (if left < right then
        (if unat left < length vec \<and> unat right < length vec then
           NextReverse_loop
             (vec[unat left := vec ! unat right, unat right := vec ! unat left])
             (left + 1) (right - 1)
         else Inl out_of_bounds_access)
      else Inr vec)"
  by pat_completeness auto
termination
proof (relation "measure (\<lambda>(vec, left, right). unat right - unat left)")
  show "wf (measure (\<lambda>(vec :: size_t list, left :: size_t, right :: size_t).
              unat right - unat left))"
    by simp
next
  fix vec :: "size_t list" and left right :: size_t
  assume "left < right"
  then have "unat (left + 1) = unat left + 1" and "unat (right - 1) = unat right - 1"
    and "unat left < unat right"
    by unat_arith+
  then show "((vec[unat left := vec ! unat right, unat right := vec ! unat left],
               left + 1, right - 1), (vec, left, right))
             \<in> measure (\<lambda>(vec, left, right). unat right - unat left)"
    by simp
qed

declare NextReverse_loop.simps [simp del]

definition NextReverse :: "size_t list \<Rightarrow> error + size_t list" where
  "NextReverse vec = NextReverse_loop vec 0 (of_nat (length vec) - 1)"

section \<open>TensorMetadata\<close>

text \<open>
  The class has six private fields, each read through its getter; the record's fields
  carry the getters' names. \<open>SetContiguous\<close> is the only mutator.
\<close>

record TensorMetadata =
  GetShape :: "size_t list"
  GetStrides :: "size_t list"
  GetOffset :: size_t
  GetTotalSize :: size_t
  GetRank :: size_t
  IsContiguous :: bool

text \<open>
  The constructor \<open>TensorMetadata(shape, offset)\<close> computes the strides from the shape;
  \<open>TensorMetadata(shape, stride, offset)\<close> stores the strides it is given. Both set the
  contiguity flag to \<open>true\<close>.
\<close>

definition TensorMetadata_of_shape :: "size_t list \<Rightarrow> size_t \<Rightarrow> TensorMetadata" where
  "TensorMetadata_of_shape shape offset =
     \<lparr>GetShape = shape, GetStrides = ComputeStrides shape, GetOffset = offset,
      GetTotalSize = ComputeSize shape, GetRank = of_nat (length shape),
      IsContiguous = True\<rparr>"

definition TensorMetadata_of_strides ::
    "size_t list \<Rightarrow> size_t list \<Rightarrow> size_t \<Rightarrow> TensorMetadata" where
  "TensorMetadata_of_strides shape stride offset =
     \<lparr>GetShape = shape, GetStrides = stride, GetOffset = offset,
      GetTotalSize = ComputeSize shape, GetRank = of_nat (length shape),
      IsContiguous = True\<rparr>"

definition SetContiguous :: "TensorMetadata \<Rightarrow> bool \<Rightarrow> TensorMetadata" where
  "SetContiguous Metadata contiguous = Metadata\<lparr>IsContiguous := contiguous\<rparr>"

section \<open>NextShapeUtils: the view transformations\<close>

text \<open>
  \<open>NextSlice\<close>. After the rank check, the loop over \<open>i\<close> validates the bounds of
  dimension \<open>i\<close>, appends \<open>endIndices[i] - startIndices[i]\<close> to \<open>newShape\<close> and
  \<open>Metadata.GetStrides()[i]\<close> to \<open>newStrides\<close>. The function then returns
  \<open>TensorMetadata(newShape, Metadata.GetOffset())\<close>: \<open>newStrides\<close> is not passed on.
  \<open>startIndices[i]\<close>, \<open>endIndices[i]\<close> and the shape are read in range by the rank
  check; the read of \<open>GetStrides()[i]\<close> is checked here.
\<close>

function NextSlice_loop ::
    "TensorMetadata \<Rightarrow> size_t list \<Rightarrow> size_t list \<Rightarrow> nat \<Rightarrow> size_t list \<Rightarrow> size_t list
     \<Rightarrow> error + (size_t list \<times> size_t list)" where
  "NextSlice_loop Metadata startIndices endIndices i newShape newStrides =
     (if i < length (GetShape Metadata) then
        (if startIndices ! i \<ge> endIndices ! i
            \<or> startIndices ! i \<ge> GetShape Metadata ! i
            \<or> endIndices ! i > GetShape Metadata ! i
         then Inl (out_of_range ''Start or end indices are out of bounds.'')
         else if i < length (GetStrides Metadata) then
           NextSlice_loop Metadata startIndices endIndices (Suc i)
             (newShape @ [endIndices ! i - startIndices ! i])
             (newStrides @ [GetStrides Metadata ! i])
         else Inl out_of_bounds_access)
      else Inr (newShape, newStrides))"
  by pat_completeness auto
termination
  by (relation "measure (\<lambda>(Metadata, s, e, i, a, b). length (GetShape Metadata) - i)") auto

declare NextSlice_loop.simps [simp del]

definition NextSlice ::
    "TensorMetadata \<Rightarrow> size_t list \<Rightarrow> size_t list \<Rightarrow> error + TensorMetadata" where
  "NextSlice Metadata startIndices endIndices =
     (if length startIndices \<noteq> length (GetShape Metadata)
         \<or> length endIndices \<noteq> length (GetShape Metadata)
      then Inl (invalid_argument ''Start and end indices must match the tensor's rank.'')
      else case NextSlice_loop Metadata startIndices endIndices 0 [] [] of
             Inl e \<Rightarrow> Inl e
           | Inr (newShape, newStrides) \<Rightarrow>
               Inr (TensorMetadata_of_shape newShape (GetOffset Metadata)))"

text \<open>
  \<open>NextReshape\<close>: the product of \<open>newShape\<close> is compared with \<open>GetTotalSize()\<close>; the
  strides computed from \<open>newShape\<close> are the ones the constructor computes again.
\<close>

definition NextReshape :: "TensorMetadata \<Rightarrow> size_t list \<Rightarrow> error + TensorMetadata" where
  "NextReshape Metadata newShape =
     (let oldSize = GetTotalSize Metadata;
          newSize = fold (\<lambda>dim newSize. newSize * dim) newShape 1
      in if oldSize \<noteq> newSize
         then Inl (invalid_argument
                ''New shape must have the same total size as the original tensor.'')
         else Inr (TensorMetadata_of_shape newShape (GetOffset Metadata)))"

text \<open>
  \<open>NextPermute\<close>. An empty \<open>permutation\<close> reverses shape and strides with
  \<open>NextReverse\<close>. Otherwise, after the length check, \<open>newShape\<close> and \<open>newStrides\<close> are
  zero-filled vectors of the sizes of the original shape and strides, and the loop
  sets \<open>newShape[i] = originalShape[permutation[i]]\<close> and
  \<open>newStrides[i] = originalStrides[permutation[i]]\<close> with no check of
  \<open>permutation[i]\<close>: the four vector accesses are checked here.
\<close>

function NextPermute_loop ::
    "size_t list \<Rightarrow> size_t list \<Rightarrow> size_t list \<Rightarrow> nat \<Rightarrow> size_t list \<Rightarrow> size_t list
     \<Rightarrow> error + (size_t list \<times> size_t list)" where
  "NextPermute_loop originalShape originalStrides permutation i newShape newStrides =
     (if i < length permutation then
        (if unat (permutation ! i) < length originalShape \<and> i < length newShape
            \<and> unat (permutation ! i) < length originalStrides \<and> i < length newStrides
         then NextPermute_loop originalShape originalStrides permutation (Suc i)
                (newShape[i := originalShape ! unat (permutation ! i)])
                (newStrides[i := originalStrides ! unat (permutation ! i)])
         else Inl out_of_bounds_access)
      else Inr (newShape, newStrides))"
  by pat_completeness auto
termination
  by (relation "measure (\<lambda>(sh, st, permutation, i, a, b). length permutation - i)") auto

declare NextPermute_loop.simps [simp del]

definition NextPermute :: "TensorMetadata \<Rightarrow> size_t list \<Rightarrow> error + TensorMetadata" where
  "NextPermute Metadata permutation =
     (let originalShape = GetShape Metadata; originalStrides = GetStrides Metadata
      in if permutation = [] then
           (case NextReverse originalShape of
              Inl e \<Rightarrow> Inl e
            | Inr newShape \<Rightarrow>
                (case NextReverse originalStrides of
                   Inl e \<Rightarrow> Inl e
                 | Inr newStrides \<Rightarrow>
                     Inr (TensorMetadata_of_strides newShape newStrides
                            (GetOffset Metadata))))
         else if length permutation \<noteq> length originalShape then
           Inl (invalid_argument
             ''Permutation vector must have the same number of elements as the tensor's rank.'')
         else
           (case NextPermute_loop originalShape originalStrides permutation 0
                   (replicate (length originalShape) 0)
                   (replicate (length originalStrides) 0) of
              Inl e \<Rightarrow> Inl e
            | Inr (newShape, newStrides) \<Rightarrow>
                Inr (TensorMetadata_of_strides newShape newStrides (GetOffset Metadata))))"

definition NextTranspose :: "TensorMetadata \<Rightarrow> error + TensorMetadata" where
  "NextTranspose Metadata = NextPermute Metadata []"

text \<open>
  \<open>NextSqueeze\<close>. With axes given, the outer loop runs over \<open>axes\<close>; for each checked
  axis the inner loop \<open>for (size_t i = 0; i < GetRank(); i++)\<close> appends every
  \<open>GetShape()[i]\<close> with \<open>i != axis\<close> to the one \<open>newShape\<close> shared by all axes. With no
  axes, every dimension different from 1 is kept. Both branches return
  \<open>TensorMetadata(newShape, Metadata.GetOffset())\<close>; \<open>newStrides\<close> is declared and
  never filled.
\<close>

function NextSqueeze_inner ::
    "TensorMetadata \<Rightarrow> size_t \<Rightarrow> size_t \<Rightarrow> size_t list \<Rightarrow> error + size_t list" where
  "NextSqueeze_inner Metadata axis i newShape =
     (if i < GetRank Metadata then
        (if i = axis then NextSqueeze_inner Metadata axis (i + 1) newShape
         else if unat i < length (GetShape Metadata) then
           NextSqueeze_inner Metadata axis (i + 1) (newShape @ [GetShape Metadata ! unat i])
         else Inl out_of_bounds_access)
      else Inr newShape)"
  by pat_completeness auto
termination
proof (relation "measure (\<lambda>(Metadata, axis, i, newShape). unat (GetRank Metadata) - unat i)")
  show "wf (measure (\<lambda>(Metadata :: TensorMetadata, axis :: size_t, i :: size_t,
              newShape :: size_t list). unat (GetRank Metadata) - unat i))"
    by simp
next
  fix Metadata :: TensorMetadata and axis i :: size_t and newShape :: "size_t list"
  assume "i < GetRank Metadata"
  then have "unat (i + 1) = unat i + 1" and "unat i < unat (GetRank Metadata)"
    by unat_arith+
  then show "((Metadata, axis, i + 1, newShape), (Metadata, axis, i, newShape))
             \<in> measure (\<lambda>(Metadata, axis, i, newShape). unat (GetRank Metadata) - unat i)"
    by simp
next
  fix Metadata :: TensorMetadata and axis i :: size_t and newShape :: "size_t list"
  assume "i < GetRank Metadata"
  then have "unat (i + 1) = unat i + 1" and "unat i < unat (GetRank Metadata)"
    by unat_arith+
  then show "((Metadata, axis, i + 1, newShape @ [GetShape Metadata ! unat i]),
              (Metadata, axis, i, newShape))
             \<in> measure (\<lambda>(Metadata, axis, i, newShape). unat (GetRank Metadata) - unat i)"
    by simp
qed

declare NextSqueeze_inner.simps [simp del]

fun NextSqueeze_axes ::
    "TensorMetadata \<Rightarrow> size_t list \<Rightarrow> size_t list \<Rightarrow> error + size_t list" where
  "NextSqueeze_axes Metadata [] newShape = Inr newShape"
| "NextSqueeze_axes Metadata (axis # axes) newShape =
     (if axis \<ge> GetRank Metadata then Inl (invalid_argument ''Axis out of bounds.'')
      else if unat axis \<ge> length (GetShape Metadata) then Inl out_of_bounds_access
      else if GetShape Metadata ! unat axis \<noteq> 1
        then Inl (invalid_argument ''Cannot squeeze axis that is not of size 1.'')
      else case NextSqueeze_inner Metadata axis 0 newShape of
             Inl e \<Rightarrow> Inl e
           | Inr newShape' \<Rightarrow> NextSqueeze_axes Metadata axes newShape')"

function NextSqueeze_all ::
    "TensorMetadata \<Rightarrow> size_t \<Rightarrow> size_t list \<Rightarrow> error + size_t list" where
  "NextSqueeze_all Metadata i newShape =
     (if i < GetRank Metadata then
        (if unat i < length (GetShape Metadata) then
           (if GetShape Metadata ! unat i = 1 then NextSqueeze_all Metadata (i + 1) newShape
            else NextSqueeze_all Metadata (i + 1) (newShape @ [GetShape Metadata ! unat i]))
         else Inl out_of_bounds_access)
      else Inr newShape)"
  by pat_completeness auto
termination
proof (relation "measure (\<lambda>(Metadata, i, newShape). unat (GetRank Metadata) - unat i)")
  show "wf (measure (\<lambda>(Metadata :: TensorMetadata, i :: size_t,
              newShape :: size_t list). unat (GetRank Metadata) - unat i))"
    by simp
next
  fix Metadata :: TensorMetadata and i :: size_t and newShape :: "size_t list"
  assume "i < GetRank Metadata"
  then have "unat (i + 1) = unat i + 1" and "unat i < unat (GetRank Metadata)"
    by unat_arith+
  then show "((Metadata, i + 1, newShape), (Metadata, i, newShape))
             \<in> measure (\<lambda>(Metadata, i, newShape). unat (GetRank Metadata) - unat i)"
    by simp
next
  fix Metadata :: TensorMetadata and i :: size_t and newShape :: "size_t list"
  assume "i < GetRank Metadata"
  then have "unat (i + 1) = unat i + 1" and "unat i < unat (GetRank Metadata)"
    by unat_arith+
  then show "((Metadata, i + 1, newShape @ [GetShape Metadata ! unat i]),
              (Metadata, i, newShape))
             \<in> measure (\<lambda>(Metadata, i, newShape). unat (GetRank Metadata) - unat i)"
    by simp
qed

declare NextSqueeze_all.simps [simp del]

definition NextSqueeze :: "TensorMetadata \<Rightarrow> size_t list \<Rightarrow> error + TensorMetadata" where
  "NextSqueeze Metadata axes =
     (if axes \<noteq> [] then
        (case NextSqueeze_axes Metadata axes [] of
           Inl e \<Rightarrow> Inl e
         | Inr newShape \<Rightarrow> Inr (TensorMetadata_of_shape newShape (GetOffset Metadata)))
      else
        (case NextSqueeze_all Metadata 0 [] of
           Inl e \<Rightarrow> Inl e
         | Inr newShape \<Rightarrow> Inr (TensorMetadata_of_shape newShape (GetOffset Metadata))))"

section \<open>Stride and size arithmetic: canonical strides\<close>

text \<open>
  The loop keeps the entries from its counter upwards and establishes the recurrence
  below it.
\<close>

lemma ComputeStrides_loop_inv:
  "k < length strides \<Longrightarrow>
     length (ComputeStrides_loop shape strides k) = length strides
   \<and> (\<forall>j. k \<le> j \<longrightarrow> j < length strides \<longrightarrow> ComputeStrides_loop shape strides k ! j = strides ! j)
   \<and> (\<forall>i<k. ComputeStrides_loop shape strides k ! i
              = ComputeStrides_loop shape strides k ! (i + 1) * shape ! (i + 1))"
proof (induction k arbitrary: strides)
  case 0
  then show ?case by simp
next
  case (Suc k)
  let ?s = "strides[k := strides ! (k + 1) * shape ! (k + 1)]"
  let ?r = "ComputeStrides_loop shape ?s k"
  from Suc.prems have k: "k < length ?s" by simp
  note IH = Suc.IH [OF k]
  have len: "length ?r = length strides" using IH by simp
  have keep: "\<And>j. k \<le> j \<Longrightarrow> j < length strides \<Longrightarrow> ?r ! j = ?s ! j" using IH by simp
  have rec: "\<And>i. i < k \<Longrightarrow> ?r ! i = ?r ! (i + 1) * shape ! (i + 1)" using IH by blast
  have at_k: "?r ! k = ?r ! (k + 1) * shape ! (k + 1)"
  proof -
    have "?r ! k = strides ! (k + 1) * shape ! (k + 1)"
      using keep [of k] Suc.prems by simp
    moreover have "?r ! (k + 1) = strides ! (k + 1)"
      using keep [of "k + 1"] Suc.prems by simp
    ultimately show ?thesis by simp
  qed
  have "\<And>j. Suc k \<le> j \<Longrightarrow> j < length strides \<Longrightarrow> ?r ! j = strides ! j"
    using keep by simp
  moreover have "\<And>i. i < Suc k \<Longrightarrow> ?r ! i = ?r ! (i + 1) * shape ! (i + 1)"
    using rec at_k less_Suc_eq by blast
  ultimately show ?case using len by simp
qed

lemma ComputeStrides_loop_closed:
  assumes "length strides = length shape" and "shape \<noteq> []"
    and "strides ! (length shape - 1) = 1"
  shows "i < length shape \<Longrightarrow>
    ComputeStrides_loop shape strides (length shape - 1) ! i = prod_list (drop (Suc i) shape)"
proof (induction "length shape - 1 - i" arbitrary: i)
  case 0
  then have i: "i = length shape - 1" by simp
  have "length shape - 1 < length strides" using assms by (cases shape) simp_all
  from ComputeStrides_loop_inv [OF this, of shape]
  have "ComputeStrides_loop shape strides (length shape - 1) ! (length shape - 1)
        = strides ! (length shape - 1)"
    using assms by simp
  then show ?case using i assms by simp
next
  case (Suc d)
  then have i: "i + 1 < length shape" by simp
  have "length shape - 1 < length strides" using assms by (cases shape) simp_all
  from ComputeStrides_loop_inv [OF this, of shape]
  have "ComputeStrides_loop shape strides (length shape - 1) ! i
        = ComputeStrides_loop shape strides (length shape - 1) ! (i + 1) * shape ! (i + 1)"
    using i by simp
  moreover have "ComputeStrides_loop shape strides (length shape - 1) ! (i + 1)
        = prod_list (drop (Suc (i + 1)) shape)"
    using Suc.hyps(1) [of "i + 1"] Suc.hyps(2) i by simp
  moreover have "drop (Suc i) shape = shape ! (i + 1) # drop (Suc (i + 1)) shape"
    using i by (simp add: Cons_nth_drop_Suc)
  ultimately show ?case by (simp add: mult.commute)
qed

lemma ComputeStrides_length: "length (ComputeStrides shape) = length shape"
proof (cases shape)
  case Nil
  then show ?thesis by (simp add: ComputeStrides_def)
next
  case (Cons d rest)
  then have "length shape - 1 < length (replicate (length shape) (1 :: size_t))" by simp
  from ComputeStrides_loop_inv [OF this, of shape]
  show ?thesis by (simp add: ComputeStrides_def Let_def)
qed

lemma ComputeStrides_nth:
  "i < length shape \<Longrightarrow> ComputeStrides shape ! i = prod_list (drop (Suc i) shape)"
proof -
  assume i: "i < length shape"
  then have ne: "shape \<noteq> []" by auto
  have "ComputeStrides_loop shape (replicate (length shape) 1) (length shape - 1) ! i
        = prod_list (drop (Suc i) shape)"
    by (rule ComputeStrides_loop_closed) (use i ne in simp_all)
  then show ?thesis by (simp add: ComputeStrides_def Let_def)
qed

lemma ComputeStrides_Cons:
  "ComputeStrides (d # rest) = prod_list rest # ComputeStrides rest"
  by (rule nth_equalityI)
     (auto simp: ComputeStrides_length ComputeStrides_nth nth_Cons split: nat.splits)


lemma fold_mult_prod_list:
  "fold (\<lambda>dim size. size * dim) shape (acc :: size_t) = acc * prod_list shape"
  by (induction shape arbitrary: acc) (simp_all add: mult.assoc)


lemma unat_prod_list:
  "unat (prod_list (shape :: size_t list)) = prod_list (map unat shape) mod 2 ^ 64"
proof (induction shape)
  case Nil
  then show ?case by simp
next
  case (Cons d rest)
  have "unat (d * prod_list rest) = unat d * unat (prod_list rest) mod 2 ^ 64"
    by (simp add: unat_word_ariths)
  also have "\<dots> = unat d * (prod_list (map unat rest) mod 2 ^ 64) mod 2 ^ 64"
    using Cons.IH by simp
  also have "\<dots> = unat d * prod_list (map unat rest) mod 2 ^ 64"
    by (rule mod_mult_right_eq)
  finally show ?case by simp
qed







section \<open>Reshape\<close>

lemma NextReshape_cases:
  "NextReshape Metadata newShape =
     (if prod_list newShape \<noteq> GetTotalSize Metadata
      then Inl (invalid_argument
             ''New shape must have the same total size as the original tensor.'')
      else Inr (TensorMetadata_of_shape newShape (GetOffset Metadata)))"
  by (auto simp: NextReshape_def Let_def fold_mult_prod_list)







section \<open>The contiguity flag\<close>

text \<open>
  Slice and squeeze return what the shape-only constructor builds, permute what the
  strides constructor builds, all at the offset of the metadata they were given.
\<close>

lemma NextSlice_result:
  "NextSlice Metadata startIndices endIndices = Inr r \<Longrightarrow>
     \<exists>newShape. r = TensorMetadata_of_shape newShape (GetOffset Metadata)"
  unfolding NextSlice_def
  by (cases "NextSlice_loop Metadata startIndices endIndices 0 [] []")
     (auto split: if_splits)
lemma NextPermute_result:
  "NextPermute Metadata permutation = Inr r \<Longrightarrow>
     \<exists>newShape newStrides. r = TensorMetadata_of_strides newShape newStrides (GetOffset Metadata)"
  unfolding NextPermute_def Let_def
  by (cases "NextReverse (GetShape Metadata)"; cases "NextReverse (GetStrides Metadata)";
      cases "NextPermute_loop (GetShape Metadata) (GetStrides Metadata) permutation 0
                   (replicate (length (GetShape Metadata)) 0)
                   (replicate (length (GetStrides Metadata)) 0)")
     (auto split: if_splits)
lemma NextSqueeze_result:
  "NextSqueeze Metadata axes = Inr r \<Longrightarrow>
     \<exists>newShape. r = TensorMetadata_of_shape newShape (GetOffset Metadata)"
  unfolding NextSqueeze_def
  by (cases "NextSqueeze_axes Metadata axes []"; cases "NextSqueeze_all Metadata 0 []")
     (auto split: if_splits)
text \<open>
  Claim C2, on the contiguous metadata of shape \<open>{2, 3}\<close> permuted by \<open>{1, 0}\<close>: the
  result has shape \<open>{3, 2}\<close> and strides \<open>{1, 3}\<close>, which are not the canonical
  strides \<open>{2, 1}\<close> of that shape, and its contiguity flag is true, where the claim has
  it false. In general the flag is set, not computed: both constructors set it to
  true, so it is true on every metadata that slice, reshape, permute, transpose and
  squeeze return, and only \<open>SetContiguous\<close> changes it.
\<close>

theorem contiguity_flag_not_recomputed:
  "NextPermute (TensorMetadata_of_shape [2, 3] 0) [1, 0]
     = Inr \<lparr>GetShape = [3, 2], GetStrides = [1, 3], GetOffset = 0,
            GetTotalSize = 6, GetRank = 2, IsContiguous = True\<rparr>
   \<and> ComputeStrides [3, 2] = [2, 1]
   \<and> IsContiguous (TensorMetadata_of_shape shape offset)
   \<and> IsContiguous (TensorMetadata_of_strides shape stride offset)
   \<and> IsContiguous (SetContiguous Metadata contiguous) = contiguous
   \<and> (NextSlice Metadata startIndices endIndices = Inr r1 \<longrightarrow> IsContiguous r1)
   \<and> (NextReshape Metadata newShape = Inr r2 \<longrightarrow> IsContiguous r2)
   \<and> (NextPermute Metadata permutation = Inr r3 \<longrightarrow> IsContiguous r3)
   \<and> (NextTranspose Metadata = Inr r4 \<longrightarrow> IsContiguous r4)
   \<and> (NextSqueeze Metadata axes = Inr r5 \<longrightarrow> IsContiguous r5)"
proof -
  have concrete: "NextPermute (TensorMetadata_of_shape [2, 3] 0) [1, 0]
     = Inr \<lparr>GetShape = [3, 2], GetStrides = [1, 3], GetOffset = 0,
            GetTotalSize = 6, GetRank = 2, IsContiguous = True\<rparr>
   \<and> ComputeStrides [3, 2] = [2, 1]"
    by code_simp
  have shape_flag: "IsContiguous (TensorMetadata_of_shape s k)" for s k
    by (simp add: TensorMetadata_of_shape_def)
  have strides_flag: "IsContiguous (TensorMetadata_of_strides s t k)" for s t k
    by (simp add: TensorMetadata_of_strides_def)
  have slice: "IsContiguous r1" if "NextSlice Metadata startIndices endIndices = Inr r1"
    using NextSlice_result [OF that] shape_flag by auto
  have reshape: "IsContiguous r2" if "NextReshape Metadata newShape = Inr r2"
    using that shape_flag by (auto simp: NextReshape_cases split: if_splits)
  have permute: "IsContiguous r" if "NextPermute Metadata p = Inr r" for p r
    using NextPermute_result [OF that] strides_flag by auto
  have squeeze: "IsContiguous r5" if "NextSqueeze Metadata axes = Inr r5"
    using NextSqueeze_result [OF that] shape_flag by auto
  have setc: "IsContiguous (SetContiguous Metadata contiguous) = contiguous"
    by (simp add: SetContiguous_def)
  show ?thesis
    using concrete shape_flag strides_flag slice reshape permute squeeze setc
    unfolding NextTranspose_def by blast
qed

theorem contiguity_flag_not_recomputed_witness:
  "NextPermute (TensorMetadata_of_shape [2, 3] 0) [1, 0]
     = Inr (TensorMetadata_of_strides [3, 2] [1, 3] 0)
   \<and> IsContiguous (TensorMetadata_of_strides [3, 2] [1, 3] 0)
   \<and> GetStrides (TensorMetadata_of_strides [3, 2] [1, 3] 0)
       \<noteq> ComputeStrides (GetShape (TensorMetadata_of_strides [3, 2] [1, 3] 0))
   \<and> NextSlice (TensorMetadata_of_shape [4, 5] 0) [1, 1] [3, 4]
     = Inr (TensorMetadata_of_shape [2, 3] 0)
   \<and> IsContiguous (TensorMetadata_of_shape [2, 3] 0)
   \<and> NextReshape (TensorMetadata_of_shape [4, 5] 0) [10, 2]
     = Inr (TensorMetadata_of_shape [10, 2] 0)
   \<and> IsContiguous (TensorMetadata_of_shape [10, 2] 0)
   \<and> NextTranspose (TensorMetadata_of_shape [2, 3] 0)
     = Inr (TensorMetadata_of_strides [3, 2] [1, 3] 0)
   \<and> NextSqueeze (TensorMetadata_of_shape [4, 5] 0) []
     = Inr (TensorMetadata_of_shape [4, 5] 0)
   \<and> IsContiguous (TensorMetadata_of_shape [4, 5] 0)"
proof -
  have of_strides: "TensorMetadata_of_strides [3, 2] [1, 3] 0
     = \<lparr>GetShape = [3, 2], GetStrides = [1, 3], GetOffset = 0,
         GetTotalSize = 6, GetRank = 2, IsContiguous = True\<rparr>"
    by code_simp
  have slice: "NextSlice (TensorMetadata_of_shape [4, 5] 0) [1, 1] [3, 4]
     = Inr (TensorMetadata_of_shape [2, 3] 0)"
    by code_simp
  have reshape: "NextReshape (TensorMetadata_of_shape [4, 5] 0) [10, 2]
     = Inr (TensorMetadata_of_shape [10, 2] 0)"
    by code_simp
  have transpose: "NextTranspose (TensorMetadata_of_shape [2, 3] 0)
     = Inr (TensorMetadata_of_strides [3, 2] [1, 3] 0)"
    by code_simp
  have squeeze: "NextSqueeze (TensorMetadata_of_shape [4, 5] 0) []
     = Inr (TensorMetadata_of_shape [4, 5] 0)"
    by code_simp
  note inst = contiguity_flag_not_recomputed
    [of _ _ _ "TensorMetadata_of_shape [4, 5] 0" _
        "[1, 1]" "[3, 4]" "TensorMetadata_of_shape [2, 3] 0"
        "[10, 2]" "TensorMetadata_of_shape [10, 2] 0"
        "[1, 0]" "TensorMetadata_of_strides [5, 4] [1, 5] 0"
        "TensorMetadata_of_strides [5, 4] [1, 5] 0"
        "[]" "TensorMetadata_of_shape [4, 5] 0"]
  have perm: "NextPermute (TensorMetadata_of_shape [2, 3] 0) [1, 0]
     = Inr (TensorMetadata_of_strides [3, 2] [1, 3] 0)"
    using inst of_strides by simp
  have flags: "IsContiguous (TensorMetadata_of_strides [3, 2] [1, 3] 0)
     \<and> IsContiguous (TensorMetadata_of_shape [2, 3] 0)
     \<and> IsContiguous (TensorMetadata_of_shape [10, 2] 0)
     \<and> IsContiguous (TensorMetadata_of_shape [4, 5] 0)"
    using inst slice reshape squeeze of_strides by simp
  have ne: "GetStrides (TensorMetadata_of_strides [3, 2] [1, 3] 0)
       \<noteq> ComputeStrides (GetShape (TensorMetadata_of_strides [3, 2] [1, 3] 0))"
    using inst of_strides by simp
  show ?thesis
    using perm flags ne slice reshape transpose squeeze by simp
qed

section \<open>Slice\<close>

text \<open>
  On valid bounds the loop of \<open>NextSlice\<close> collects the extents
  \<open>endIndices[i] - startIndices[i]\<close> and the strides of the original.
\<close>

lemma NextSlice_loop_collects:
  assumes "length (GetStrides Metadata) = length (GetShape Metadata)"
    and "\<forall>k<length (GetShape Metadata).
           startIndices ! k < endIndices ! k \<and> endIndices ! k \<le> GetShape Metadata ! k"
    and "i \<le> length (GetShape Metadata)"
  shows "NextSlice_loop Metadata startIndices endIndices i newShape newStrides
         = Inr (newShape @ map (\<lambda>k. endIndices ! k - startIndices ! k)
                             [i..<length (GetShape Metadata)],
                newStrides @ map (\<lambda>k. GetStrides Metadata ! k)
                               [i..<length (GetShape Metadata)])"
  using assms
proof (induction Metadata startIndices endIndices i newShape newStrides
       rule: NextSlice_loop.induct)
  case (1 Metadata startIndices endIndices i newShape newStrides)
  let ?n = "length (GetShape Metadata)"
  show ?case
  proof (cases "i < ?n")
    case False
    then have "NextSlice_loop Metadata startIndices endIndices i newShape newStrides
               = Inr (newShape, newStrides)"
      by (simp add: NextSlice_loop.simps
            [of Metadata startIndices endIndices i newShape newStrides])
    then show ?thesis using False "1.prems"(3) by simp
  next
    case True
    have ok: "startIndices ! i < endIndices ! i \<and> endIndices ! i \<le> GetShape Metadata ! i"
      using True "1.prems"(2) by simp
    then have valid: "\<not> (endIndices ! i \<le> startIndices ! i
                 \<or> GetShape Metadata ! i \<le> startIndices ! i
                 \<or> GetShape Metadata ! i < endIndices ! i)"
      by auto
    have st: "i < length (GetStrides Metadata)" using True "1.prems"(1) by simp
    have IH: "NextSlice_loop Metadata startIndices endIndices (Suc i)
                (newShape @ [endIndices ! i - startIndices ! i])
                (newStrides @ [GetStrides Metadata ! i])
              = Inr ((newShape @ [endIndices ! i - startIndices ! i])
                       @ map (\<lambda>k. endIndices ! k - startIndices ! k) [Suc i..<?n],
                     (newStrides @ [GetStrides Metadata ! i])
                       @ map (\<lambda>k. GetStrides Metadata ! k) [Suc i..<?n])"
      using "1.IH" [OF True valid st] "1.prems" True by simp
    have "NextSlice_loop Metadata startIndices endIndices i newShape newStrides
          = NextSlice_loop Metadata startIndices endIndices (Suc i)
                (newShape @ [endIndices ! i - startIndices ! i])
                (newStrides @ [GetStrides Metadata ! i])"
      using True valid st
      by (simp add: NextSlice_loop.simps
            [of Metadata startIndices endIndices i newShape newStrides])
    then show ?thesis using IH True by (simp add: upt_conv_Cons)
  qed
qed

lemma NextSlice_valid:
  assumes "length startIndices = length (GetShape Metadata)"
    and "length endIndices = length (GetShape Metadata)"
    and "length (GetStrides Metadata) = length (GetShape Metadata)"
    and "\<forall>k<length (GetShape Metadata).
           startIndices ! k < endIndices ! k \<and> endIndices ! k \<le> GetShape Metadata ! k"
  shows "NextSlice Metadata startIndices endIndices
         = Inr (TensorMetadata_of_shape
                  (map (\<lambda>k. endIndices ! k - startIndices ! k)
                     [0..<length (GetShape Metadata)])
                  (GetOffset Metadata))"
proof -
  have "NextSlice_loop Metadata startIndices endIndices 0 [] []
         = Inr ([] @ map (\<lambda>k. endIndices ! k - startIndices ! k)
                             [0..<length (GetShape Metadata)],
                [] @ map (\<lambda>k. GetStrides Metadata ! k)
                               [0..<length (GetShape Metadata)])"
    by (rule NextSlice_loop_collects) (use assms in simp_all)
  then show ?thesis using assms(1,2) by (simp add: NextSlice_def)
qed

text \<open>
  Claim C1, at the scenario of the specification, with original offset 7: the metadata
  of shape \<open>{4, 5}\<close> has strides \<open>{5, 1}\<close>, and its slice from \<open>{1, 1}\<close> to
  \<open>{3, 4}\<close> has the shape \<open>{2, 3}\<close> of the claim, but the strides \<open>{3, 1}\<close>
  recomputed from the new shape, where the claim has the inherited \<open>{5, 1}\<close>, and the
  offset 7 of the original, where the claim has \<open>7 + 1 * 5 + 1 * 1 = 13\<close>. In general,
  for valid bounds on a metadata with as many strides as dimensions, the slice has the
  shape \<open>endIndices[i] - startIndices[i]\<close> of the claim, the canonical strides of that
  shape and the offset of the original.
\<close>

theorem NextSlice_keeps_offset_recomputes_strides:
  "GetStrides (TensorMetadata_of_shape [4, 5] 7) = [5, 1]
   \<and> GetOffset (TensorMetadata_of_shape [4, 5] 7) = 7
   \<and> NextSlice (TensorMetadata_of_shape [4, 5] 7) [1, 1] [3, 4]
     = Inr \<lparr>GetShape = [2, 3], GetStrides = [3, 1], GetOffset = 7,
            GetTotalSize = 6, GetRank = 2, IsContiguous = True\<rparr>
   \<and> (length startIndices = length (GetShape Metadata)
        \<and> length endIndices = length (GetShape Metadata)
        \<and> length (GetStrides Metadata) = length (GetShape Metadata)
        \<and> (\<forall>k<length (GetShape Metadata).
              startIndices ! k < endIndices ! k \<and> endIndices ! k \<le> GetShape Metadata ! k)
      \<longrightarrow> (\<exists>r. NextSlice Metadata startIndices endIndices = Inr r
             \<and> GetShape r = map (\<lambda>k. endIndices ! k - startIndices ! k)
                               [0..<length (GetShape Metadata)]
             \<and> GetStrides r = ComputeStrides (GetShape r)
             \<and> GetOffset r = GetOffset Metadata))"
proof -
  have "GetStrides (TensorMetadata_of_shape [4, 5] 7) = [5, 1]
   \<and> GetOffset (TensorMetadata_of_shape [4, 5] 7) = 7
   \<and> NextSlice (TensorMetadata_of_shape [4, 5] 7) [1, 1] [3, 4]
     = Inr \<lparr>GetShape = [2, 3], GetStrides = [3, 1], GetOffset = 7,
            GetTotalSize = 6, GetRank = 2, IsContiguous = True\<rparr>"
    by code_simp
  then show ?thesis
    using NextSlice_valid [of startIndices Metadata endIndices]
    by (auto simp: TensorMetadata_of_shape_def)
qed

theorem NextSlice_keeps_offset_recomputes_strides_witness:
  "NextSlice (TensorMetadata_of_shape [4, 5] 7) [1, 1] [3, 4]
     \<noteq> Inr (TensorMetadata_of_strides [2, 3] [5, 1] (7 + (1 * 5 + 1 * 1)))
   \<and> (\<exists>r. NextSlice (TensorMetadata_of_shape [4, 5] 7) [1, 1] [3, 4] = Inr r
         \<and> GetShape r = [2, 3] \<and> GetStrides r = [3, 1] \<and> GetOffset r = 7)"
  using NextSlice_keeps_offset_recomputes_strides [of "[1, 1]" "TensorMetadata_of_shape [4, 5] 7" "[3, 4]"]
  by (simp add: TensorMetadata_of_strides_def)

section \<open>Squeeze\<close>

text \<open>
  For one axis the inner loop copies every dimension but that axis; the outer loop
  appends one such copy per axis.
\<close>

lemma NextSqueeze_inner_copies:
  assumes "GetRank Metadata = of_nat (length (GetShape Metadata))"
    and "length (GetShape Metadata) < 2 ^ 64"
    and "unat i \<le> length (GetShape Metadata)"
  shows "NextSqueeze_inner Metadata axis i newShape
         = Inr (newShape @ map (\<lambda>k. GetShape Metadata ! k)
                  (filter (\<lambda>k. k \<noteq> unat axis) [unat i..<length (GetShape Metadata)]))"
  using assms
proof (induction Metadata axis i newShape rule: NextSqueeze_inner.induct)
  case (1 Metadata axis i newShape)
  let ?n = "length (GetShape Metadata)"
  have rank: "unat (GetRank Metadata) = ?n"
    using "1.prems"(1,2) by (simp add: unat_of_nat)
  show ?case
  proof (cases "i < GetRank Metadata")
    case False
    then have "unat i = ?n"
      using rank "1.prems"(3) by (simp add: word_less_nat_alt)
    moreover have "NextSqueeze_inner Metadata axis i newShape = Inr newShape"
      using False by (simp add: NextSqueeze_inner.simps [of Metadata axis i newShape])
    ultimately show ?thesis by simp
  next
    case True
    then have lt: "unat i < ?n" using rank by (simp add: word_less_nat_alt)
    have i1: "unat (i + 1) = unat i + 1" using True by unat_arith
    have next_ok: "unat (i + 1) \<le> ?n" using i1 lt by simp
    have upt: "[unat i..<?n] = unat i # [unat (i + 1)..<?n]"
      using lt i1 by (simp add: upt_conv_Cons)
    show ?thesis
    proof (cases "i = axis")
      case same: True
      have "NextSqueeze_inner Metadata axis i newShape
            = NextSqueeze_inner Metadata axis (i + 1) newShape"
        using True same by (subst NextSqueeze_inner.simps) simp
      also have "\<dots> = Inr (newShape @ map (\<lambda>k. GetShape Metadata ! k)
                  (filter (\<lambda>k. k \<noteq> unat axis) [unat (i + 1)..<?n]))"
        using "1.IH"(1) [OF True same "1.prems"(1,2) next_ok] .
      finally show ?thesis using upt same by simp
    next
      case other: False
      then have ne: "unat i \<noteq> unat axis" by (simp add: word_unat_eq_iff)
      have "NextSqueeze_inner Metadata axis i newShape
            = NextSqueeze_inner Metadata axis (i + 1) (newShape @ [GetShape Metadata ! unat i])"
        using True other lt
        by (simp add: NextSqueeze_inner.simps [of Metadata axis i newShape])
      also have "\<dots> = Inr ((newShape @ [GetShape Metadata ! unat i])
                  @ map (\<lambda>k. GetShape Metadata ! k)
                      (filter (\<lambda>k. k \<noteq> unat axis) [unat (i + 1)..<?n]))"
        using "1.IH"(2) [OF True other lt "1.prems"(1,2) next_ok] .
      finally show ?thesis using upt ne by simp
    qed
  qed
qed

lemma NextSqueeze_axes_appends:
  assumes "GetRank Metadata = of_nat (length (GetShape Metadata))"
    and "length (GetShape Metadata) < 2 ^ 64"
    and "\<forall>axis\<in>set axes. unat axis < length (GetShape Metadata)
           \<and> GetShape Metadata ! unat axis = 1"
  shows "NextSqueeze_axes Metadata axes newShape
         = Inr (newShape @ concat (map (\<lambda>axis. map (\<lambda>k. GetShape Metadata ! k)
                  (filter (\<lambda>k. k \<noteq> unat axis) [0..<length (GetShape Metadata)])) axes))"
  using assms
proof (induction axes arbitrary: newShape)
  case Nil
  then show ?case by simp
next
  case (Cons axis axes)
  let ?n = "length (GetShape Metadata)"
  have rank: "unat (GetRank Metadata) = ?n"
    using Cons.prems(1,2) by (simp add: unat_of_nat)
  have ax: "unat axis < ?n" and one: "GetShape Metadata ! unat axis = 1"
    using Cons.prems(3) by simp_all
  have lt: "\<not> GetRank Metadata \<le> axis"
    using ax rank by (simp add: word_le_nat_alt)
  have inner: "NextSqueeze_inner Metadata axis 0 newShape
         = Inr (newShape @ map (\<lambda>k. GetShape Metadata ! k)
                  (filter (\<lambda>k. k \<noteq> unat axis) [0..<?n]))"
    using NextSqueeze_inner_copies [OF Cons.prems(1,2), of 0 axis newShape] by simp
  have rest: "\<forall>axis\<in>set axes. unat axis < ?n \<and> GetShape Metadata ! unat axis = 1"
    using Cons.prems(3) by simp
  show ?case
    using lt ax one inner Cons.IH [OF Cons.prems(1,2) rest] by simp
qed

lemma NextSqueeze_valid_axes:
  assumes "axes \<noteq> []"
    and "GetRank Metadata = of_nat (length (GetShape Metadata))"
    and "length (GetShape Metadata) < 2 ^ 64"
    and "\<forall>axis\<in>set axes. unat axis < length (GetShape Metadata)
           \<and> GetShape Metadata ! unat axis = 1"
  shows "NextSqueeze Metadata axes
         = Inr (TensorMetadata_of_shape
                  (concat (map (\<lambda>axis. map (\<lambda>k. GetShape Metadata ! k)
                     (filter (\<lambda>k. k \<noteq> unat axis) [0..<length (GetShape Metadata)])) axes))
                  (GetOffset Metadata))"
  using assms(1) NextSqueeze_axes_appends [OF assms(2,3,4), of "[]"]
  by (simp add: NextSqueeze_def)

text \<open>
  Claim C7, on the shape \<open>{1, 3, 1, 4}\<close> with axes \<open>{0, 2}\<close>: each axis appends a
  copy of the shape without that axis, so the result has shape
  \<open>{3, 1, 4, 1, 3, 4}\<close> where the claim has \<open>{3, 4}\<close>. And on a view of shape
  \<open>{3, 2, 1}\<close> with strides \<open>{1, 3, 6}\<close>, squeezing axis 2 gives the strides
  \<open>{2, 1}\<close> recomputed from the new shape, where the claim carries over \<open>{1, 3}\<close>.
  In general, for a non-empty list of axes, each below the rank and of size 1, the
  result has the concatenation, over the listed axes, of the shape without that axis
  (for a single axis, the shape of the claim), the canonical strides of that shape and
  the offset of the original.
\<close>

theorem NextSqueeze_repeats_shape_per_axis:
  "NextSqueeze (TensorMetadata_of_shape [1, 3, 1, 4] 0) [0, 2]
     = Inr \<lparr>GetShape = [3, 1, 4, 1, 3, 4], GetStrides = [48, 48, 12, 12, 4, 1],
            GetOffset = 0, GetTotalSize = 144, GetRank = 6, IsContiguous = True\<rparr>
   \<and> NextSqueeze (TensorMetadata_of_strides [3, 2, 1] [1, 3, 6] 0) [2]
     = Inr \<lparr>GetShape = [3, 2], GetStrides = [2, 1],
            GetOffset = 0, GetTotalSize = 6, GetRank = 2, IsContiguous = True\<rparr>
   \<and> (axes \<noteq> []
        \<and> GetRank Metadata = of_nat (length (GetShape Metadata))
        \<and> length (GetShape Metadata) < 2 ^ 64
        \<and> (\<forall>axis\<in>set axes. unat axis < length (GetShape Metadata)
              \<and> GetShape Metadata ! unat axis = 1)
      \<longrightarrow> (\<exists>r. NextSqueeze Metadata axes = Inr r
             \<and> GetShape r
               = concat (map (\<lambda>axis. map (\<lambda>k. GetShape Metadata ! k)
                   (filter (\<lambda>k. k \<noteq> unat axis) [0..<length (GetShape Metadata)])) axes)
             \<and> GetStrides r = ComputeStrides (GetShape r)
             \<and> GetOffset r = GetOffset Metadata))"
proof -
  have "NextSqueeze (TensorMetadata_of_shape [1, 3, 1, 4] 0) [0, 2]
     = Inr \<lparr>GetShape = [3, 1, 4, 1, 3, 4], GetStrides = [48, 48, 12, 12, 4, 1],
            GetOffset = 0, GetTotalSize = 144, GetRank = 6, IsContiguous = True\<rparr>
   \<and> NextSqueeze (TensorMetadata_of_strides [3, 2, 1] [1, 3, 6] 0) [2]
     = Inr \<lparr>GetShape = [3, 2], GetStrides = [2, 1],
            GetOffset = 0, GetTotalSize = 6, GetRank = 2, IsContiguous = True\<rparr>"
    by code_simp
  then show ?thesis
    using NextSqueeze_valid_axes [of axes Metadata]
    by (auto simp: TensorMetadata_of_shape_def)
qed

theorem NextSqueeze_repeats_shape_per_axis_witness:
  "NextSqueeze (TensorMetadata_of_shape [1, 3, 1, 4] 0) [0, 2]
     \<noteq> Inr (TensorMetadata_of_strides [3, 4] [4, 1] 0)
   \<and> NextSqueeze (TensorMetadata_of_strides [3, 2, 1] [1, 3, 6] 0) [2]
     \<noteq> Inr (TensorMetadata_of_strides [3, 2] [1, 3] 0)
   \<and> (\<exists>r. NextSqueeze (TensorMetadata_of_shape [1, 3, 1, 4] 0) [2] = Inr r
         \<and> GetShape r = [1, 3, 4] \<and> GetOffset r = 0)"
proof -
  have m: "GetShape (TensorMetadata_of_shape [1, 3, 1, 4] 0) = [1, 3, 1, 4]
           \<and> GetRank (TensorMetadata_of_shape [1, 3, 1, 4] 0) = 4
           \<and> GetOffset (TensorMetadata_of_shape [1, 3, 1, 4] 0) = 0"
    by (simp add: TensorMetadata_of_shape_def)
  have f: "filter (\<lambda>k. k \<noteq> 2) [0..<4] = [0, 1, 3 :: nat]"
    by code_simp
  show ?thesis
    using m f NextSqueeze_repeats_shape_per_axis [of "[2]" "TensorMetadata_of_shape [1, 3, 1, 4] 0"]
    by (auto simp: TensorMetadata_of_strides_def)
qed

section \<open>Reversal and permutation\<close>

text \<open>
  Started with \<open>left + right + 1 = vec.size()\<close>, the loop of \<open>NextReverse\<close> stays
  in bounds and mirrors the entries between \<open>left\<close> and \<open>right\<close>, leaving the
  others in place.
\<close>

lemma NextReverse_loop_swaps:
  "unat left + unat right + 1 = length vec \<Longrightarrow>
     \<exists>res. NextReverse_loop vec left right = Inr res \<and> length res = length vec
       \<and> (\<forall>i. unat left \<le> i \<longrightarrow> i \<le> unat right \<longrightarrow>
              res ! i = vec ! (unat left + unat right - i))
       \<and> (\<forall>i. i < unat left \<or> unat right < i \<longrightarrow> res ! i = vec ! i)"
proof (induction vec left right rule: NextReverse_loop.induct)
  case (1 vec left right)
  show ?case
  proof (cases "left < right")
    case False
    then have ge: "unat right \<le> unat left" by (simp add: word_less_nat_alt)
    have "NextReverse_loop vec left right = Inr vec"
      using False by (simp add: NextReverse_loop.simps [of vec left right])
    moreover have "unat left + unat right - i = i"
      if "unat left \<le> i" and "i \<le> unat right" for i
      using that ge by linarith
    ultimately show ?thesis by simp
  next
    case True
    then have lt: "unat left < unat right"
      by (simp add: word_less_nat_alt)
    have l1: "unat (left + 1) = unat left + 1"
      using True by unat_arith
    have r1: "unat (right - 1) = unat right - 1"
      using True by unat_arith
    have inb: "unat left < length vec \<and> unat right < length vec"
      using lt "1.prems" by linarith
    let ?vec = "vec[unat left := vec ! unat right, unat right := vec ! unat left]"
    have sum: "unat (left + 1) + unat (right - 1) + 1 = length ?vec"
      using l1 r1 lt "1.prems" by simp
    from "1.IH" [OF True inb sum] obtain res where
      res: "NextReverse_loop ?vec (left + 1) (right - 1) = Inr res"
      and len: "length res = length vec"
      and inner: "\<And>i. unat left + 1 \<le> i \<Longrightarrow> i \<le> unat right - 1 \<Longrightarrow>
                    res ! i = ?vec ! (unat left + 1 + (unat right - 1) - i)"
      and outer: "\<And>i. i < unat left + 1 \<or> unat right - 1 < i \<Longrightarrow> res ! i = ?vec ! i"
      unfolding l1 r1 by auto
    have step: "NextReverse_loop vec left right = Inr res"
      using True inb res by (simp add: NextReverse_loop.simps [of vec left right])
    have at_left: "res ! unat left = vec ! unat right"
      using outer [of "unat left"] lt inb by simp
    have at_right: "res ! unat right = vec ! unat left"
      using outer [of "unat right"] lt inb by simp
    have mid: "res ! i = vec ! (unat left + unat right - i)"
      if "unat left \<le> i" and "i \<le> unat right" for i
    proof -
      have "i = unat left \<or> i = unat right \<or> (unat left + 1 \<le> i \<and> i \<le> unat right - 1)"
        using that by linarith
      then consider "i = unat left" | "i = unat right" | "unat left + 1 \<le> i \<and> i \<le> unat right - 1"
        by blast
      then show ?thesis
      proof cases
        case 1
        then show ?thesis using at_left by simp
      next
        case 2
        then show ?thesis using at_right by simp
      next
        case 3
        then have e: "unat left + 1 + (unat right - 1) - i = unat left + unat right - i"
          and n1: "unat left + unat right - i \<noteq> unat left"
          and n2: "unat left + unat right - i \<noteq> unat right"
          by linarith+
        have "res ! i = ?vec ! (unat left + unat right - i)"
          using inner [of i] 3 e by simp
        then show ?thesis using n1 n2 by simp
      qed
    qed
    have out: "res ! i = vec ! i" if "i < unat left \<or> unat right < i" for i
    proof -
      have "i < unat left + 1 \<or> unat right - 1 < i" and "i \<noteq> unat left" and "i \<noteq> unat right"
        using that lt by linarith+
      then show ?thesis using outer [of i] by simp
    qed
    show ?thesis using step len mid out by simp
  qed
qed

lemma NextReverse_rev:
  assumes "vec \<noteq> []" and "length vec < 2 ^ 64"
  shows "NextReverse vec = Inr (rev vec)"
proof -
  obtain k where k: "length vec = Suc k"
    using assms(1) by (cases vec) simp_all
  have "(of_nat (length vec) :: size_t) - 1 = of_nat k"
    by (simp add: k)
  moreover have "unat (of_nat k :: size_t) = k"
    using assms(2) k by (simp add: unat_of_nat)
  ultimately have r: "unat ((of_nat (length vec) :: size_t) - 1) = k"
    by simp
  have "unat (0 :: size_t) + unat ((of_nat (length vec) :: size_t) - 1) + 1 = length vec"
    using r k by simp
  from NextReverse_loop_swaps [OF this] obtain res where
    res: "NextReverse vec = Inr res" and len: "length res = length vec"
    and nth: "\<And>i. i \<le> k \<Longrightarrow> res ! i = vec ! (k - i)"
    unfolding r NextReverse_def by auto
  have "res = rev vec"
  proof (rule nth_equalityI)
    show "length res = length (rev vec)" using len by simp
  next
    fix i assume "i < length res"
    then have i: "i \<le> k" "i < length vec" using len k by simp_all
    have "length vec - Suc i = k - i" using k by simp
    then show "res ! i = rev vec ! i" using nth [OF i(1)] i(2) by (simp add: rev_nth)
  qed
  then show ?thesis using res by simp
qed

lemma NextReverse_Nil: "NextReverse [] = Inl out_of_bounds_access"
  by code_simp

lemma NextReverse_Nil_right:
  "unat (of_nat (length ([] :: size_t list)) - 1 :: size_t) = 2 ^ 64 - 1"
  by (simp add: unsigned_minus_1_eq_mask mask_eq_exp_minus_1)

text \<open>
  With every entry of the permutation argument in range, the loop of \<open>NextPermute\<close>
  stays in bounds and gathers shape and strides through the argument.
\<close>

lemma NextPermute_loop_gathers:
  assumes "length newShape = length permutation"
    and "length newStrides = length permutation"
    and "\<forall>k<length permutation. unat (permutation ! k) < length originalShape
           \<and> unat (permutation ! k) < length originalStrides"
    and "i \<le> length permutation"
  shows "NextPermute_loop originalShape originalStrides permutation i newShape newStrides
         = Inr (take i newShape @ map (\<lambda>j. originalShape ! unat j) (drop i permutation),
                take i newStrides @ map (\<lambda>j. originalStrides ! unat j) (drop i permutation))"
  using assms
proof (induction originalShape originalStrides permutation i newShape newStrides
       rule: NextPermute_loop.induct)
  case (1 originalShape originalStrides permutation i newShape newStrides)
  show ?case
  proof (cases "i < length permutation")
    case False
    then have i: "i = length permutation" using "1.prems"(4) by simp
    have "NextPermute_loop originalShape originalStrides permutation i newShape newStrides
          = Inr (newShape, newStrides)"
      using False
      by (simp add: NextPermute_loop.simps
            [of originalShape originalStrides permutation i newShape newStrides])
    then show ?thesis
      using "1.prems"(1,2) i by simp
  next
    case True
    let ?v = "originalShape ! unat (permutation ! i)"
    let ?w = "originalStrides ! unat (permutation ! i)"
    have inb: "unat (permutation ! i) < length originalShape \<and> i < length newShape
            \<and> unat (permutation ! i) < length originalStrides \<and> i < length newStrides"
      using True "1.prems" by simp
    have IH: "NextPermute_loop originalShape originalStrides permutation (Suc i)
                (newShape[i := ?v]) (newStrides[i := ?w])
              = Inr (take (Suc i) (newShape[i := ?v])
                       @ map (\<lambda>j. originalShape ! unat j) (drop (Suc i) permutation),
                     take (Suc i) (newStrides[i := ?w])
                       @ map (\<lambda>j. originalStrides ! unat j) (drop (Suc i) permutation))"
      using "1.IH" [OF True inb] "1.prems" True by simp
    have a: "take (Suc i) (newShape[i := ?v]) = take i newShape @ [?v]"
      using inb by (simp add: take_Suc_conv_app_nth)
    have b: "take (Suc i) (newStrides[i := ?w]) = take i newStrides @ [?w]"
      using inb by (simp add: take_Suc_conv_app_nth)
    have d: "drop i permutation = permutation ! i # drop (Suc i) permutation"
      using True by (simp add: Cons_nth_drop_Suc)
    have "NextPermute_loop originalShape originalStrides permutation i newShape newStrides
          = NextPermute_loop originalShape originalStrides permutation (Suc i)
                (newShape[i := ?v]) (newStrides[i := ?w])"
      using True inb
      by (simp add: NextPermute_loop.simps
            [of originalShape originalStrides permutation i newShape newStrides])
    then show ?thesis using IH a b d by simp
  qed
qed

lemma NextPermute_gathers:
  assumes "permutation \<noteq> []"
    and "length permutation = length (GetShape Metadata)"
    and "length (GetStrides Metadata) = length (GetShape Metadata)"
    and "\<forall>k<length permutation. unat (permutation ! k) < length permutation"
  shows "NextPermute Metadata permutation
         = Inr (TensorMetadata_of_strides
                  (map (\<lambda>j. GetShape Metadata ! unat j) permutation)
                  (map (\<lambda>j. GetStrides Metadata ! unat j) permutation)
                  (GetOffset Metadata))"
proof -
  have "NextPermute_loop (GetShape Metadata) (GetStrides Metadata) permutation 0
          (replicate (length (GetShape Metadata)) 0)
          (replicate (length (GetStrides Metadata)) 0)
        = Inr (take 0 (replicate (length (GetShape Metadata)) 0)
                 @ map (\<lambda>j. GetShape Metadata ! unat j) (drop 0 permutation),
               take 0 (replicate (length (GetStrides Metadata)) 0)
                 @ map (\<lambda>j. GetStrides Metadata ! unat j) (drop 0 permutation))"
    by (rule NextPermute_loop_gathers) (use assms in simp_all)
  then show ?thesis
    using assms(1,2) by (simp add: NextPermute_def Let_def)
qed

lemma NextPermute_reverses:
  assumes "GetShape Metadata \<noteq> []"
    and "length (GetStrides Metadata) = length (GetShape Metadata)"
    and "length (GetShape Metadata) < 2 ^ 64"
  shows "NextPermute Metadata []
         = Inr (TensorMetadata_of_strides (rev (GetShape Metadata))
                  (rev (GetStrides Metadata)) (GetOffset Metadata))"
proof -
  have "GetStrides Metadata \<noteq> []" using assms(1,2) by auto
  then have "NextReverse (GetStrides Metadata) = Inr (rev (GetStrides Metadata))"
    using assms(2,3) by (simp add: NextReverse_rev)
  moreover have "NextReverse (GetShape Metadata) = Inr (rev (GetShape Metadata))"
    using assms(1,3) by (simp add: NextReverse_rev)
  ultimately show ?thesis by (simp add: NextPermute_def Let_def)
qed

lemma NextPermute_rank0:
  "GetShape Metadata = [] \<Longrightarrow> NextPermute Metadata [] = Inl out_of_bounds_access"
  by (simp add: NextPermute_def Let_def NextReverse_Nil)

text \<open>
  Claim C10. On an empty vector \<open>NextReverse\<close> starts with
  \<open>right = vec.size() - 1 = 2 ^ 64 - 1\<close>, so the loop is entered and indexes the empty
  vector out of bounds: \<open>NextPermute\<close> with an empty permutation, and so
  \<open>NextTranspose\<close>, is unsafe on a metadata of rank 0. On a non-empty vector the
  reversal stays within bounds and returns the reversed vector, so on every metadata of
  rank at least 1 (with as many strides as dimensions) the transposition returns the
  reversed shape and strides.
\<close>

theorem NextReverse_underflow_on_rank0:
  "unat (of_nat (length ([] :: size_t list)) - 1 :: size_t) = 2 ^ 64 - 1
   \<and> NextReverse [] = Inl out_of_bounds_access
   \<and> (GetShape Metadata = [] \<longrightarrow>
        NextPermute Metadata [] = Inl out_of_bounds_access
      \<and> NextTranspose Metadata = Inl out_of_bounds_access)
   \<and> (vec \<noteq> [] \<and> length vec < 2 ^ 64 \<longrightarrow> NextReverse vec = Inr (rev vec))
   \<and> (GetShape Metadata \<noteq> [] \<and> length (GetStrides Metadata) = length (GetShape Metadata)
        \<and> length (GetShape Metadata) < 2 ^ 64 \<longrightarrow>
        NextPermute Metadata []
        = Inr (TensorMetadata_of_strides (rev (GetShape Metadata))
                 (rev (GetStrides Metadata)) (GetOffset Metadata)))"
  using NextReverse_Nil_right NextReverse_Nil NextPermute_rank0 [of Metadata]
    NextReverse_rev [of vec] NextPermute_reverses [of Metadata]
  unfolding NextTranspose_def by blast

theorem NextReverse_underflow_on_rank0_witness:
  "GetShape (TensorMetadata_of_shape [] 0) = []
   \<and> NextPermute (TensorMetadata_of_shape [] 0) [] = Inl out_of_bounds_access
   \<and> NextTranspose (TensorMetadata_of_shape [] 0) = Inl out_of_bounds_access
   \<and> NextReverse [2, 3, 4] = Inr (rev [2, 3, 4])
   \<and> NextPermute (TensorMetadata_of_shape [2, 3, 4] 0) []
       = Inr (TensorMetadata_of_strides [4, 3, 2] [1, 4, 12] 0)"
proof -
  have a: "GetShape (TensorMetadata_of_shape [] 0) = []"
    by (simp add: TensorMetadata_of_shape_def)
  have b: "[2, 3, 4 :: size_t] \<noteq> [] \<and> length [2, 3, 4 :: size_t] < 2 ^ 64" by simp
  have c: "GetShape (TensorMetadata_of_shape [2, 3, 4] 0) = [2, 3, 4]
           \<and> GetStrides (TensorMetadata_of_shape [2, 3, 4] 0) = [12, 4, 1]
           \<and> GetOffset (TensorMetadata_of_shape [2, 3, 4] 0) = 0"
    by code_simp
  show ?thesis
    using a b c
      NextReverse_underflow_on_rank0 [of "TensorMetadata_of_shape [] 0" "[2, 3, 4]"]
      NextReverse_underflow_on_rank0 [of "TensorMetadata_of_shape [2, 3, 4] 0" "[2, 3, 4]"]
    by simp
qed

text \<open>
  Claim C4, on a metadata of shape \<open>{2, 3}\<close>: the permutation argument \<open>{0, 0}\<close>
  has a duplicate and is accepted, the result having shape \<open>{2, 2}\<close> and strides
  \<open>{3, 3}\<close>; the argument \<open>{0, 5}\<close> has an entry out of range, and the code reads
  the shape vector out of bounds instead of throwing. In general, a non-empty argument
  of the length of the rank whose entries are all below the rank is accepted, with
  duplicates or without.
\<close>

theorem NextPermute_accepts_invalid_permutation:
  "NextPermute (TensorMetadata_of_shape [2, 3] 0) [0, 0]
     = Inr \<lparr>GetShape = [2, 2], GetStrides = [3, 3], GetOffset = 0,
            GetTotalSize = 4, GetRank = 2, IsContiguous = True\<rparr>
   \<and> NextPermute (TensorMetadata_of_shape [2, 3] 0) [0, 5] = Inl out_of_bounds_access
   \<and> (permutation \<noteq> []
        \<and> length permutation = length (GetShape Metadata)
        \<and> length (GetStrides Metadata) = length (GetShape Metadata)
        \<and> (\<forall>k<length permutation. unat (permutation ! k) < length permutation)
      \<longrightarrow> NextPermute Metadata permutation
          = Inr (TensorMetadata_of_strides
                   (map (\<lambda>j. GetShape Metadata ! unat j) permutation)
                   (map (\<lambda>j. GetStrides Metadata ! unat j) permutation)
                   (GetOffset Metadata)))"
proof -
  have "NextPermute (TensorMetadata_of_shape [2, 3] 0) [0, 0]
     = Inr \<lparr>GetShape = [2, 2], GetStrides = [3, 3], GetOffset = 0,
            GetTotalSize = 4, GetRank = 2, IsContiguous = True\<rparr>
   \<and> NextPermute (TensorMetadata_of_shape [2, 3] 0) [0, 5] = Inl out_of_bounds_access"
    by code_simp
  then show ?thesis
    using NextPermute_gathers [of permutation Metadata] by blast
qed

theorem NextPermute_accepts_invalid_permutation_witness:
  "\<not> isl (NextPermute (TensorMetadata_of_shape [2, 3] 0) [0, 0])
   \<and> \<not> distinct [0, 0 :: size_t]
   \<and> NextPermute (TensorMetadata_of_shape [2, 3] 0) [0, 5]
       \<noteq> Inl (invalid_argument
             ''Permutation vector must have the same number of elements as the tensor's rank.'')
   \<and> NextPermute (TensorMetadata_of_shape [2, 3] 0) [0, 0]
       = Inr (TensorMetadata_of_strides [2, 2] [3, 3] 0)"
proof -
  have m: "GetShape (TensorMetadata_of_shape [2, 3] 0) = [2, 3]
           \<and> GetStrides (TensorMetadata_of_shape [2, 3] 0) = [3, 1]
           \<and> GetOffset (TensorMetadata_of_shape [2, 3] 0) = 0"
    by code_simp
  have r: "\<forall>k<length [0, 0 :: size_t]. unat ([0, 0 :: size_t] ! k) < length [0, 0 :: size_t]"
    by (simp add: less_Suc_eq)
  show ?thesis
    using m r
      NextPermute_accepts_invalid_permutation [of "[0, 0]" "TensorMetadata_of_shape [2, 3] 0"]
    by (simp add: TensorMetadata_of_strides_def ComputeSize_def)
qed

text \<open>
  On the indices below \<open>n\<close>, a left inverse of a map into these indices is a right
  inverse too.
\<close>

lemma left_inverse_is_right_inverse:
  fixes f g :: "nat \<Rightarrow> nat"
  assumes "\<forall>i<n. f i < n \<and> g (f i) = i" and "k < n"
  shows "g k < n \<and> f (g k) = k"
proof -
  have "inj_on f {..<n}"
    using assms(1) by (metis inj_on_inverseI lessThan_iff)
  moreover have "f ` {..<n} \<subseteq> {..<n}"
    using assms(1) by auto
  ultimately have "f ` {..<n} = {..<n}"
    by (simp add: endo_inj_surj)
  then obtain i where "i < n" and "f i = k"
    using assms(2) by (metis imageE lessThan_iff)
  then show ?thesis using assms(1) by auto
qed

lemma NextPermute_inverse:
  assumes ne: "permutation \<noteq> []"
    and lp: "length permutation = length (GetShape Metadata)"
    and ls: "length (GetStrides Metadata) = length (GetShape Metadata)"
    and lq: "length inversePermutation = length permutation"
    and inv: "\<forall>i<length permutation. unat (permutation ! i) < length permutation
               \<and> unat (inversePermutation ! unat (permutation ! i)) = i"
  shows "\<exists>m1 m2. NextPermute Metadata permutation = Inr m1
           \<and> NextPermute m1 inversePermutation = Inr m2
           \<and> GetShape m2 = GetShape Metadata \<and> GetStrides m2 = GetStrides Metadata"
proof -
  let ?n = "length permutation"
  let ?m1 = "TensorMetadata_of_strides
                  (map (\<lambda>j. GetShape Metadata ! unat j) permutation)
                  (map (\<lambda>j. GetStrides Metadata ! unat j) permutation)
                  (GetOffset Metadata)"
  have range: "\<forall>k<?n. unat (permutation ! k) < ?n" using inv by simp
  have first: "NextPermute Metadata permutation = Inr ?m1"
    by (rule NextPermute_gathers [OF ne lp ls range])
  have sh1: "GetShape ?m1 = map (\<lambda>j. GetShape Metadata ! unat j) permutation"
    and st1: "GetStrides ?m1 = map (\<lambda>j. GetStrides Metadata ! unat j) permutation"
    and off1: "GetOffset ?m1 = GetOffset Metadata"
    by (simp_all add: TensorMetadata_of_strides_def)
  have rinv: "unat (inversePermutation ! k) < ?n
              \<and> unat (permutation ! unat (inversePermutation ! k)) = k" if "k < ?n" for k
    using left_inverse_is_right_inverse
      [of ?n "\<lambda>i. unat (permutation ! i)" "\<lambda>k. unat (inversePermutation ! k)" k]
      inv that by simp
  let ?m2 = "TensorMetadata_of_strides
                  (map (\<lambda>j. GetShape ?m1 ! unat j) inversePermutation)
                  (map (\<lambda>j. GetStrides ?m1 ! unat j) inversePermutation)
                  (GetOffset ?m1)"
  have second: "NextPermute ?m1 inversePermutation = Inr ?m2"
  proof (rule NextPermute_gathers)
    show "inversePermutation \<noteq> []" using ne lq by auto
    show "length inversePermutation = length (GetShape ?m1)" using lq sh1 by simp
    show "length (GetStrides ?m1) = length (GetShape ?m1)" using sh1 st1 by simp
    show "\<forall>k<length inversePermutation.
            unat (inversePermutation ! k) < length inversePermutation"
      using rinv lq by simp
  qed
  have "GetShape ?m2 = GetShape Metadata"
  proof (rule nth_equalityI)
    show "length (GetShape ?m2) = length (GetShape Metadata)"
      using lq lp by (simp add: TensorMetadata_of_strides_def)
  next
    fix k assume "k < length (GetShape ?m2)"
    then have k: "k < ?n" using lq by (simp add: TensorMetadata_of_strides_def)
    have "GetShape ?m2 ! k = GetShape ?m1 ! unat (inversePermutation ! k)"
      using k lq by (simp add: TensorMetadata_of_strides_def)
    also have "\<dots> = GetShape Metadata ! unat (permutation ! unat (inversePermutation ! k))"
      using rinv [OF k] sh1 by simp
    finally show "GetShape ?m2 ! k = GetShape Metadata ! k"
      using rinv [OF k] by simp
  qed
  moreover have "GetStrides ?m2 = GetStrides Metadata"
  proof (rule nth_equalityI)
    show "length (GetStrides ?m2) = length (GetStrides Metadata)"
      using lq lp ls by (simp add: TensorMetadata_of_strides_def)
  next
    fix k assume "k < length (GetStrides ?m2)"
    then have k: "k < ?n" using lq by (simp add: TensorMetadata_of_strides_def)
    have "GetStrides ?m2 ! k = GetStrides ?m1 ! unat (inversePermutation ! k)"
      using k lq by (simp add: TensorMetadata_of_strides_def)
    also have "\<dots> = GetStrides Metadata ! unat (permutation ! unat (inversePermutation ! k))"
      using rinv [OF k] st1 by simp
    finally show "GetStrides ?m2 ! k = GetStrides Metadata ! k"
      using rinv [OF k] by simp
  qed
  ultimately show ?thesis using first second by blast
qed

text \<open>
  Claim C6. For a metadata of rank 0 the only permutation is the empty one, which
  \<open>NextPermute\<close> takes for a transposition: the call indexes the empty shape out of
  bounds and returns nothing to permute back. For every metadata of rank at least 1
  with as many strides as dimensions, every permutation of its rank and the inverse of
  that permutation (\<open>inversePermutation[permutation[i]] = i\<close> for every \<open>i\<close>), both
  calls succeed and the second returns the shape and the strides of the original.
\<close>

theorem NextPermute_inverse_restores_unless_rank0:
  "NextPermute (TensorMetadata_of_shape [] 0) [] = Inl out_of_bounds_access
   \<and> (permutation \<noteq> []
        \<and> length permutation = length (GetShape Metadata)
        \<and> length (GetStrides Metadata) = length (GetShape Metadata)
        \<and> length inversePermutation = length permutation
        \<and> (\<forall>i<length permutation. unat (permutation ! i) < length permutation
               \<and> unat (inversePermutation ! unat (permutation ! i)) = i)
      \<longrightarrow> (\<exists>m1 m2. NextPermute Metadata permutation = Inr m1
             \<and> NextPermute m1 inversePermutation = Inr m2
             \<and> GetShape m2 = GetShape Metadata \<and> GetStrides m2 = GetStrides Metadata))"
proof -
  have "GetShape (TensorMetadata_of_shape [] 0) = []"
    by (simp add: TensorMetadata_of_shape_def)
  then have "NextPermute (TensorMetadata_of_shape [] 0) [] = Inl out_of_bounds_access"
    by (rule NextPermute_rank0)
  then show ?thesis using NextPermute_inverse [of permutation Metadata inversePermutation]
    by blast
qed

theorem NextPermute_inverse_restores_unless_rank0_witness:
  "NextPermute (TensorMetadata_of_shape [2, 3, 4] 0) [2, 0, 1]
     = Inr (TensorMetadata_of_strides [4, 2, 3] [1, 12, 4] 0)
   \<and> NextPermute (TensorMetadata_of_strides [4, 2, 3] [1, 12, 4] 0) [1, 2, 0]
     = Inr (TensorMetadata_of_strides [2, 3, 4] [12, 4, 1] 0)
   \<and> (\<exists>m1 m2. NextPermute (TensorMetadata_of_shape [2, 3, 4] 0) [2, 0, 1] = Inr m1
         \<and> NextPermute m1 [1, 2, 0] = Inr m2
         \<and> GetShape m2 = GetShape (TensorMetadata_of_shape [2, 3, 4] 0)
         \<and> GetStrides m2 = GetStrides (TensorMetadata_of_shape [2, 3, 4] 0))"
proof -
  have a: "NextPermute (TensorMetadata_of_shape [2, 3, 4] 0) [2, 0, 1]
     = Inr (TensorMetadata_of_strides [4, 2, 3] [1, 12, 4] 0)"
    by code_simp
  have b: "NextPermute (TensorMetadata_of_strides [4, 2, 3] [1, 12, 4] 0) [1, 2, 0]
     = Inr (TensorMetadata_of_strides [2, 3, 4] [12, 4, 1] 0)"
    by code_simp
  have len: "length (GetShape (TensorMetadata_of_shape [2, 3, 4] 0)) = 3
             \<and> length (GetStrides (TensorMetadata_of_shape [2, 3, 4] 0)) = 3"
    by code_simp
  have inv: "\<forall>i<length [2, 0, 1 :: size_t]. unat ([2, 0, 1 :: size_t] ! i) < length [2, 0, 1 :: size_t]
               \<and> unat ([1, 2, 0 :: size_t] ! unat ([2, 0, 1 :: size_t] ! i)) = i"
    by (simp add: less_Suc_eq numeral_3_eq_3)
  show ?thesis
    using a b len inv
      NextPermute_inverse_restores_unless_rank0
        [of "[2, 0, 1]" "TensorMetadata_of_shape [2, 3, 4] 0" "[1, 2, 0]"]
    by simp
qed

section \<open>Index mapping on canonical strides\<close>

text \<open>The accumulator of \<open>FlattenIndex\<close> only adds to what the loop computes from 0.\<close>

lemma FlattenIndex_loop_acc:
  "FlattenIndex_loop strides indices acc
   = (case FlattenIndex_loop strides indices 0 of
        Inl e \<Rightarrow> Inl e
      | Inr f \<Rightarrow> Inr (acc + f))"
proof (induction strides arbitrary: indices acc)
  case Nil
  then show ?case by simp
next
  case (Cons s strides)
  show ?case
  proof (cases indices)
    case Nil
    then show ?thesis by simp
  next
    case (Cons x rest)
    have "FlattenIndex_loop strides rest (acc + x * s)
          = (case FlattenIndex_loop strides rest 0 of
               Inl e \<Rightarrow> Inl e | Inr f \<Rightarrow> Inr (acc + x * s + f))"
      by (rule Cons.IH)
    moreover have "FlattenIndex_loop strides rest (0 + x * s)
          = (case FlattenIndex_loop strides rest 0 of
               Inl e \<Rightarrow> Inl e | Inr f \<Rightarrow> Inr (0 + x * s + f))"
      by (rule Cons.IH)
    ultimately show ?thesis
      using Cons by (simp add: add.assoc split: sum.splits)
  qed
qed

lemma FlattenIndex_Cons:
  "FlattenIndex (s # strides) (x # indices)
   = (case FlattenIndex strides indices of
        Inl e \<Rightarrow> Inl e
      | Inr f \<Rightarrow> Inr (x * s + f))"
  using FlattenIndex_loop_acc [of strides indices "x * s"]
  by (simp add: FlattenIndex_def)

lemma unat_prod_list_fits:
  "prod_list (map unat shape) < 2 ^ 64 \<Longrightarrow>
     unat (prod_list (shape :: size_t list)) = prod_list (map unat shape)"
  by (simp add: unat_prod_list)

text \<open>
  On the canonical strides of a shape whose number of elements is below \<open>2 ^ 64\<close>,
  no product and no sum of \<open>FlattenIndex\<close> wraps around: the flat index of a valid
  multi-index is below the number of elements, and \<open>UnflattenIndex\<close> divides by no
  zero stride and recovers the multi-index.
\<close>

lemma roundtrip_canonical:
  assumes "list_all2 (\<lambda>x d. x < d) idx shape"
    and "prod_list (map unat shape) < 2 ^ 64"
  shows "\<exists>f. FlattenIndex (ComputeStrides shape) idx = Inr f
           \<and> unat f < prod_list (map unat shape)
           \<and> UnflattenIndex (ComputeStrides shape) f = Inr idx"
  using assms
proof (induction idx shape rule: list_all2_induct)
  case Nil
  then show ?case by (simp add: ComputeStrides_def FlattenIndex_def)
next
  case (Cons x xs d rest)
  let ?P = "prod_list (map unat rest)"
  let ?S = "prod_list rest :: size_t"
  have xd: "unat x < unat d" using Cons.hyps(1) by (simp add: word_less_nat_alt)
  have total: "unat d * ?P < 2 ^ 64" using Cons.prems by simp
  have "?P \<le> unat d * ?P" using xd by simp
  then have P: "?P < 2 ^ 64" using total by linarith
  from Cons.IH [OF P] obtain f' where
    flat': "FlattenIndex (ComputeStrides rest) xs = Inr f'"
    and small: "unat f' < ?P"
    and unflat': "UnflattenIndex (ComputeStrides rest) f' = Inr xs"
    by blast
  have S: "unat ?S = ?P" using P by (rule unat_prod_list_fits)
  have "(unat x + 1) * ?P \<le> unat d * ?P"
    using xd by (intro mult_le_mono1) simp
  then have bound: "unat x * ?P + unat f' < unat d * ?P"
    using small by (simp add: algebra_simps)
  have sum_fits: "unat x * ?P + unat f' < 2 ^ 64"
    using bound total by (rule less_trans)
  have "unat x * ?P \<le> unat x * ?P + unat f'" by simp
  then have "unat x * ?P < 2 ^ 64" using sum_fits by (rule le_less_trans)
  then have "unat x * unat ?S < 2 ^ LENGTH(64)" using S by simp
  then have "unat (x * ?S) = unat x * unat ?S" by (rule unat_mult_lem [THEN iffD1])
  then have xS: "unat (x * ?S) = unat x * ?P" using S by simp
  have "unat (x * ?S) + unat f' < 2 ^ LENGTH(64)" using sum_fits xS by simp
  then have "unat (x * ?S + f') = unat (x * ?S) + unat f'"
    by (rule unat_add_lem [THEN iffD1])
  then have f: "unat (x * ?S + f') = unat x * ?P + unat f'"
    using xS by simp
  have Sne: "?S \<noteq> 0" using small S by (auto simp: unat_gt_0 [symmetric])
  have Ppos: "0 < ?P" using small by linarith
  have "unat ((x * ?S + f') div ?S) = unat x"
    using f S small Ppos by (simp add: unat_div)
  then have dv: "(x * ?S + f') div ?S = x" by (simp add: word_unat_eq_iff)
  have "unat ((x * ?S + f') mod ?S) = unat f'"
    using f S small by (simp add: unat_mod)
  then have md: "(x * ?S + f') mod ?S = f'" by (simp add: word_unat_eq_iff)
  have "FlattenIndex (ComputeStrides (d # rest)) (x # xs) = Inr (x * ?S + f')"
    using flat' by (simp add: ComputeStrides_Cons FlattenIndex_Cons)
  moreover have "unat (x * ?S + f') < prod_list (map unat (d # rest))"
    using f bound by simp
  moreover have "UnflattenIndex (ComputeStrides (d # rest)) (x * ?S + f') = Inr (x # xs)"
    using Sne dv md unflat' by (simp add: ComputeStrides_Cons)
  ultimately show ?case by blast
qed

text \<open>
  Claim C5 as stated fails where the number of elements does not fit in \<open>size_t\<close>:
  the contiguous metadata of shape \<open>{2 ^ 63, 4}\<close> has the canonical strides
  \<open>{4, 1}\<close>, the valid multi-index \<open>{2 ^ 62, 0}\<close> flattens to
  \<open>2 ^ 62 * 4 = 2 ^ 64\<close>, which wraps to 0, and 0 unflattens to \<open>{0, 0}\<close>.
\<close>

theorem roundtrip_overflow_counterexample:
  "IsContiguous (TensorMetadata_of_shape [9223372036854775808, 4] 0)
   \<and> GetStrides (TensorMetadata_of_shape [9223372036854775808, 4] 0)
     = ComputeStrides [9223372036854775808, 4]
   \<and> [4611686018427387904, 0 :: size_t] ! 0 < [9223372036854775808, 4] ! 0
   \<and> [4611686018427387904, 0 :: size_t] ! 1 < [9223372036854775808, 4] ! 1
   \<and> FlattenIndex (ComputeStrides [9223372036854775808, 4]) [4611686018427387904, 0] = Inr 0
   \<and> UnflattenIndex (ComputeStrides [9223372036854775808, 4]) 0 = Inr [0, 0]
   \<and> UnflattenIndex (ComputeStrides [9223372036854775808, 4]) 0
       \<noteq> Inr [4611686018427387904, 0]"
  by code_simp

text \<open>
  Claim C5, amended. For every contiguous metadata of rank at least 1 with canonical
  row-major strides whose number of elements (the product of the dimensions, taken in
  the natural numbers) is below \<open>2 ^ 64\<close>, and for every multi-index \<open>idx\<close> with
  \<open>idx[i] < shape[i]\<close> in every dimension, \<open>FlattenIndex\<close> returns a flat index from
  which \<open>UnflattenIndex\<close> returns \<open>idx\<close>.
\<close>

theorem UnflattenIndex_FlattenIndex_roundtrip:
  assumes "IsContiguous Metadata"
    and "GetStrides Metadata = ComputeStrides (GetShape Metadata)"
    and "GetShape Metadata \<noteq> []"
    and "length idx = length (GetShape Metadata)"
    and "\<forall>i<length idx. idx ! i < GetShape Metadata ! i"
    and "prod_list (map unat (GetShape Metadata)) < 2 ^ 64"
  shows "\<exists>f. FlattenIndex (GetStrides Metadata) idx = Inr f
           \<and> UnflattenIndex (GetStrides Metadata) f = Inr idx"
proof -
  have "list_all2 (\<lambda>x d. x < d) idx (GetShape Metadata)"
    using assms(4,5) by (simp add: list_all2_conv_all_nth)
  from roundtrip_canonical [OF this assms(6)] show ?thesis
    using assms(2) by auto
qed

theorem UnflattenIndex_FlattenIndex_roundtrip_witness:
  "FlattenIndex (GetStrides (TensorMetadata_of_shape [2, 3, 4] 0)) [1, 2, 3] = Inr 23
   \<and> UnflattenIndex (GetStrides (TensorMetadata_of_shape [2, 3, 4] 0)) 23 = Inr [1, 2, 3]
   \<and> (\<exists>f. FlattenIndex (GetStrides (TensorMetadata_of_shape [2, 3, 4] 0)) [1, 2, 3] = Inr f
         \<and> UnflattenIndex (GetStrides (TensorMetadata_of_shape [2, 3, 4] 0)) f
           = Inr [1, 2, 3])"
proof -
  have c: "IsContiguous (TensorMetadata_of_shape [2, 3, 4] 0)"
    and s: "GetStrides (TensorMetadata_of_shape [2, 3, 4] 0)
            = ComputeStrides (GetShape (TensorMetadata_of_shape [2, 3, 4] 0))"
    and sh: "GetShape (TensorMetadata_of_shape [2, 3, 4] 0) = [2, 3, 4]"
    by (simp_all add: TensorMetadata_of_shape_def)
  have ne: "GetShape (TensorMetadata_of_shape [2, 3, 4] 0) \<noteq> []"
    and len: "length [1, 2, 3 :: size_t] = length (GetShape (TensorMetadata_of_shape [2, 3, 4] 0))"
    using sh by simp_all
  have inr: "\<forall>i<length [1, 2, 3 :: size_t].
               [1, 2, 3 :: size_t] ! i < GetShape (TensorMetadata_of_shape [2, 3, 4] 0) ! i"
    unfolding sh by (simp add: less_Suc_eq numeral_3_eq_3)
  have fits: "prod_list (map unat (GetShape (TensorMetadata_of_shape [2, 3, 4] 0))) < 2 ^ 64"
    unfolding sh by simp
  have a: "FlattenIndex (GetStrides (TensorMetadata_of_shape [2, 3, 4] 0)) [1, 2, 3] = Inr 23"
    by code_simp
  have b: "UnflattenIndex (GetStrides (TensorMetadata_of_shape [2, 3, 4] 0)) 23 = Inr [1, 2, 3]"
    by code_simp
  show ?thesis
    using a b UnflattenIndex_FlattenIndex_roundtrip [OF c s ne len inr fits] by simp
qed

end
